theory Spec2Isabelle
  imports Main
begin

section \<open>The bulk operations manager of the inventory pages\<close>

text \<open>
  A shallow embedding of \<^verbatim>\<open>inventory/static/inventory/js/bulk-operations.js\<close>: the class
  \<^verbatim>\<open>BulkOperationsManager\<close> with its selection, its in-progress flag, the three bulk
  loops that talk to the server, the generic \<^verbatim>\<open>executeOperation\<close> wrapper and the entry
  points of the toolbar. The manager object, the parts of the page it writes and a log of
  what it sends are one record that every method takes and returns. The server and the
  user are an environment: what each request is answered with, and at which request the
  user clicks Cancel.

  The elements the script looks up (the progress modal, the toolbar and its counter, the
  two forms) are taken to be on the page, so no lookup throws. Timers (the removal of an
  alert after five seconds, the 100 ms pause between two stock adjustments, the delayed
  page reload) are left out: they change nothing the manager holds.
\<close>

subsection \<open>Texts\<close>

text \<open>
  The strings the script builds from template literals, one constructor per template, with
  the interpolated values as arguments.
\<close>

datatype caption =
    AnotherOperationInProgress    \<comment> \<open>\<^verbatim>\<open>'Another operation is already in progress'\<close>\<close>
  | PleaseSelectItemsFirst        \<comment> \<open>\<^verbatim>\<open>'Please select items first'\<close>\<close>
  | SelectAtLeastOneField         \<comment> \<open>\<^verbatim>\<open>'Please select at least one field to update'\<close>\<close>
  | UnknownAction string          \<comment> \<open>\<^verbatim>\<open>`Unknown action: ${action}`\<close>\<close>
  | ExportStarted nat             \<comment> \<open>\<^verbatim>\<open>`Export started for ${n} products`\<close>\<close>
  | PreparingOperation            \<comment> \<open>\<^verbatim>\<open>'Preparing operation...'\<close>, the modal's initial text\<close>
  | StartingOperation             \<comment> \<open>\<^verbatim>\<open>'Starting operation...'\<close>\<close>
  | Updated nat nat               \<comment> \<open>\<^verbatim>\<open>`Updated ${completed} of ${n} products`\<close>\<close>
  | Adjusted nat nat              \<comment> \<open>\<^verbatim>\<open>`Adjusted ${completed} of ${n} products`\<close>\<close>
  | Activated bool nat nat        \<comment> \<open>\<^verbatim>\<open>`${activate ? 'Activated' : 'Deactivated'} ${completed} of ${n} products`\<close>\<close>
  | CompletedSuccessfully nat     \<comment> \<open>\<^verbatim>\<open>`Operation completed successfully! Processed ${completed} items.`\<close>\<close>
  | CompletedWithErrors nat nat   \<comment> \<open>\<^verbatim>\<open>`Operation completed with ${errors.length} errors. ${completed} items processed successfully.`\<close>\<close>
  | OperationFailed string        \<comment> \<open>\<^verbatim>\<open>`Operation failed: ${error.message}`\<close>\<close>
  | CancelledByUser               \<comment> \<open>\<^verbatim>\<open>'Operation cancelled by user'\<close>\<close>
  | OperationCancelled            \<comment> \<open>\<^verbatim>\<open>'Operation cancelled'\<close>\<close>

datatype alert_type = success_alert | error_alert | warning_alert | info_alert

text \<open>The entries of a job's \<^verbatim>\<open>errors\<close> array.\<close>

datatype 'id message =
    BatchError string             \<comment> \<open>\<^verbatim>\<open>`Batch error: ${error.message}`\<close>\<close>
  | UnknownErrorInBatch           \<comment> \<open>\<^verbatim>\<open>'Unknown error in batch'\<close>\<close>
  | ServerError string            \<comment> \<open>an element of the response's \<^verbatim>\<open>errors\<close>, pushed as it is\<close>
  | ProductError 'id string       \<comment> \<open>\<^verbatim>\<open>`Product ${productId}: ${...}`\<close>\<close>
  | FatalError string             \<comment> \<open>\<^verbatim>\<open>`Fatal error: ${error.message}`\<close>\<close>

datatype 'id current_item =
    ReadyToStart                  \<comment> \<open>\<^verbatim>\<open>'Ready to start...'\<close>, the modal's initial text\<close>
  | Preparing                     \<comment> \<open>\<^verbatim>\<open>'Preparing...'\<close>\<close>
  | ProcessingProduct 'id         \<comment> \<open>\<^verbatim>\<open>`Processing product ID: ${productId}`\<close>\<close>

subsection \<open>Requests and responses\<close>

datatype modal = BulkProgressModal | BulkUpdateModal | BulkStockModal

datatype ui_event =
    ModalShown modal
  | ModalHidden modal
  | ButtonProcessing              \<comment> \<open>the clicked button is disabled and reads "Processing..."\<close>
  | ButtonRestored
  | ProductListRefreshed          \<comment> \<open>\<^verbatim>\<open>updateProductList()\<close> or the page reload\<close>

datatype 'id request =
    GetCategories                               \<comment> \<open>\<^verbatim>\<open>GET /inventory/api/categories/\<close>\<close>
  | GetSuppliers                                \<comment> \<open>\<^verbatim>\<open>GET /inventory/api/suppliers/\<close>\<close>
  | GetLocations                                \<comment> \<open>\<^verbatim>\<open>GET /inventory/api/locations/\<close>\<close>
  | BulkUpdateRequest "'id list" "string list"  \<comment> \<open>\<^verbatim>\<open>POST /inventory/api/bulk-update/\<close>: \<^verbatim>\<open>product_ids\<close>, the fields of \<^verbatim>\<open>update_data\<close>\<close>
  | AdjustStockRequest 'id                      \<comment> \<open>\<^verbatim>\<open>POST /inventory/api/adjust-stock/\<close>: \<^verbatim>\<open>product_id\<close>\<close>
  | BulkActivateRequest "'id list" bool         \<comment> \<open>\<^verbatim>\<open>POST /inventory/api/bulk-activate/\<close>: \<^verbatim>\<open>product_ids\<close>, \<^verbatim>\<open>is_active\<close>\<close>
  | ExportRequest "'id list"                    \<comment> \<open>the form posted to \<^verbatim>\<open>/inventory/products/export/\<close>\<close>

text \<open>
  The \<^verbatim>\<open>errors\<close> member of a parsed response, by what
  \<^verbatim>\<open>errors.push(...(result.errors || ['Unknown error in batch']))\<close> does with it.
\<close>

datatype errors_field =
    Falsy                         \<comment> \<open>absent, \<^verbatim>\<open>null\<close>, \<^verbatim>\<open>false\<close>, \<^verbatim>\<open>0\<close>\<close>
  | Array "string list"           \<comment> \<open>an array; an empty array is truthy\<close>
  | Str string                    \<comment> \<open>a string; the empty string is falsy, any other is spread into its characters\<close>
  | NotIterable                   \<comment> \<open>\<^verbatim>\<open>true\<close>, a non-zero number, an object: spreading it throws a TypeError\<close>

text \<open>
  What \<^verbatim>\<open>await fetch(...)\<close> followed by \<^verbatim>\<open>await response.json()\<close> and the test of
  \<^verbatim>\<open>result.success\<close> come to.
\<close>

datatype response =
    Rejected string               \<comment> \<open>\<^verbatim>\<open>fetch\<close> rejects, the body is not JSON, or it is \<^verbatim>\<open>null\<close>: the thrown error's message\<close>
  | Succeeded                     \<comment> \<open>\<^verbatim>\<open>result.success\<close> is truthy\<close>
  | Failed errors_field string    \<comment> \<open>\<^verbatim>\<open>result.success\<close> is falsy; \<^verbatim>\<open>result.errors\<close> and \<^verbatim>\<open>result.error\<close> as text\<close>

record 'id env =
  respond :: "nat \<Rightarrow> 'id request \<Rightarrow> response"
    \<comment> \<open>the answer to the request sent at loop index \<open>i\<close>\<close>
  cancelClick :: "nat \<Rightarrow> bool"
    \<comment> \<open>whether the user clicks Cancel while the loop at index \<open>i\<close> is suspended\<close>
  confirmAnswer :: bool
    \<comment> \<open>the answer to \<^verbatim>\<open>confirm(...)\<close>\<close>
  getResolves :: "'id request \<Rightarrow> bool"
    \<comment> \<open>whether the GET of an option list and the reading of its body run through without
        throwing; a rejected request, a body that is not JSON and a body that is not an
        array throw inside the \<^verbatim>\<open>try\<close> and are caught and logged\<close>
  typeErrorText :: string
    \<comment> \<open>the message of the TypeError the engine throws when a value that is not iterable
        is spread\<close>

subsection \<open>The manager\<close>

text \<open>
  \<open>selectedItems\<close> is a JavaScript \<^verbatim>\<open>Set\<close>: its elements in insertion order, which is
  the order \<^verbatim>\<open>Array.from\<close> reads them in. The fields from \<open>progressTitle\<close> to
  \<open>closeVisible\<close> are the elements of the progress modal. \<open>alerts\<close>, \<open>requests\<close> and
  \<open>ui\<close> log what the script shows and sends, oldest first. \<open>progressCalls\<close> lists the
  calls of \<^verbatim>\<open>progress.update\<close> on the current \<^verbatim>\<open>progress\<close> object and \<open>job\<close> is the
  object the operation function returned; neither exists in the script, both record what
  it computes. The width of the progress bar (a rounded floating-point percentage) is left
  out.
\<close>

record 'id job_result =
  success :: bool
  completed :: nat
  total :: nat
  errors :: "'id message list"

record 'id manager =
  selectedItems :: "'id list"
  operationInProgress :: bool
  currentOperation :: "string option"
  toolbarVisible :: bool
  selectedCount :: nat
  progressTitle :: string
  itemsCount :: nat
  successCount :: nat
  errorCount :: nat
  progressCount :: "nat \<times> nat"
  progressText :: caption
  currentItem :: "'id current_item"
  errorLogVisible :: bool
  errorLog :: "'id message list"
  cancelVisible :: bool
  closeVisible :: bool
  alerts :: "(caption \<times> alert_type) list"
  requests :: "'id request list"
  ui :: "ui_event list"
  progressCalls :: "(nat \<times> nat \<times> caption) list"
  job :: "'id job_result option"

text \<open>
  The state after the constructor and \<^verbatim>\<open>createProgressModal\<close>: the modal's HTML as
  written there.
\<close>

definition constructor :: "'id manager" where
  "constructor =
     \<lparr>selectedItems = [], operationInProgress = False, currentOperation = None,
      toolbarVisible = False, selectedCount = 0,
      progressTitle = ''Processing Bulk Operation'', itemsCount = 0, successCount = 0,
      errorCount = 0, progressCount = (0, 0), progressText = PreparingOperation,
      currentItem = ReadyToStart, errorLogVisible = False, errorLog = [],
      cancelVisible = True, closeVisible = False,
      alerts = [], requests = [], ui = [], progressCalls = [], job = None\<rparr>"

definition showAlert :: "caption \<Rightarrow> alert_type \<Rightarrow> 'id manager \<Rightarrow> 'id manager" where
  "showAlert message type m = m\<lparr>alerts := alerts m @ [(message, type)]\<rparr>"

subsection \<open>Selection\<close>

text \<open>\<^verbatim>\<open>Set.prototype.add\<close> and \<^verbatim>\<open>Set.prototype.delete\<close> on the insertion-ordered elements.\<close>

definition set_add :: "'a \<Rightarrow> 'a list \<Rightarrow> 'a list" where
  "set_add x xs = (if x \<in> set xs then xs else xs @ [x])"

definition set_delete :: "'a \<Rightarrow> 'a list \<Rightarrow> 'a list" where
  "set_delete x xs = removeAll x xs"

text \<open>
  \<^verbatim>\<open>updateSelectionToolbar\<close>, with the toolbar and its counter on the page. The counter is
  written only while the selection is not empty.
\<close>

definition updateSelectionToolbar :: "'id manager \<Rightarrow> 'id manager" where
  "updateSelectionToolbar m =
     (if length (selectedItems m) > 0
      then m\<lparr>toolbarVisible := True, selectedCount := length (selectedItems m)\<rparr>
      else m\<lparr>toolbarVisible := False\<rparr>)"

text \<open>
  A checkbox is its \<^verbatim>\<open>value\<close> and its \<^verbatim>\<open>checked\<close>. \<^verbatim>\<open>updateSelectAllState\<close> only
  writes the header checkbox, which is not part of the manager.
\<close>

type_synonym 'id checkbox = "'id \<times> bool"

definition handleItemSelection :: "'id checkbox \<Rightarrow> 'id manager \<Rightarrow> 'id manager" where
  "handleItemSelection checkbox m =
     (let itemId = fst checkbox in
      updateSelectionToolbar
        (if snd checkbox
         then m\<lparr>selectedItems := set_add itemId (selectedItems m)\<rparr>
         else m\<lparr>selectedItems := set_delete itemId (selectedItems m)\<rparr>))"

text \<open>
  \<^verbatim>\<open>toggleSelectAll(checked)\<close> over the values of the page's item checkboxes: each is set
  to \<open>checked\<close> and handled in turn.
\<close>

definition toggleSelectAll :: "bool \<Rightarrow> 'id list \<Rightarrow> 'id manager \<Rightarrow> 'id manager" where
  "toggleSelectAll checked checkboxes m =
     foldl (\<lambda>s v. handleItemSelection (v, checked) s) m checkboxes"

definition clearSelection :: "'id manager \<Rightarrow> 'id manager" where
  "clearSelection m = updateSelectionToolbar (m\<lparr>selectedItems := []\<rparr>)"

definition refreshProductList :: "'id manager \<Rightarrow> 'id manager" where
  "refreshProductList m =
     (let m1 = clearSelection m in m1\<lparr>ui := ui m1 @ [ProductListRefreshed]\<rparr>)"

text \<open>The events that change the selection, and a run of them from the constructor.\<close>

datatype 'id selection_event =
    ItemChanged "'id checkbox"
  | SelectAllChanged bool "'id list"
  | ClearClicked

fun selection_step :: "'id manager \<Rightarrow> 'id selection_event \<Rightarrow> 'id manager" where
  "selection_step m (ItemChanged checkbox) = handleItemSelection checkbox m"
| "selection_step m (SelectAllChanged checked checkboxes) = toggleSelectAll checked checkboxes m"
| "selection_step m ClearClicked = clearSelection m"

definition after_events :: "'id selection_event list \<Rightarrow> 'id manager" where
  "after_events es = foldl selection_step constructor es"

subsection \<open>The progress object and cancellation\<close>

text \<open>
  The three functions of the \<^verbatim>\<open>progress\<close> object that \<^verbatim>\<open>executeOperation\<close> builds.
  \<open>errorLog\<close> holds the messages handed to \<^verbatim>\<open>addError\<close>, one entry per call. The
  script appends each as \<^verbatim>\<open><li>\<close> markup through \<^verbatim>\<open>innerHTML\<close>, so what the page shows
  for a message that contains markup is not its text; the rendering is not modelled.
\<close>

definition progress_update :: "nat \<Rightarrow> nat \<Rightarrow> caption \<Rightarrow> 'id manager \<Rightarrow> 'id manager" where
  "progress_update done n message m =
     m\<lparr>progressText := message, progressCount := (done, n), successCount := done,
       progressCalls := progressCalls m @ [(done, n, message)]\<rparr>"

definition progress_updateCurrent :: "'id current_item \<Rightarrow> 'id manager \<Rightarrow> 'id manager" where
  "progress_updateCurrent item m = m\<lparr>currentItem := item\<rparr>"

definition progress_addError :: "'id message \<Rightarrow> 'id manager \<Rightarrow> 'id manager" where
  "progress_addError error m =
     m\<lparr>errorLog := errorLog m @ [error], errorLogVisible := True,
       errorCount := errorCount m + 1\<rparr>"

definition cancelCurrentOperation :: "'id manager \<Rightarrow> 'id manager" where
  "cancelCurrentOperation m =
     (if operationInProgress m
      then showAlert OperationCancelled warning_alert
             (m\<lparr>operationInProgress := False, progressText := CancelledByUser,
                cancelVisible := False, closeVisible := True\<rparr>)
      else m)"

definition resetProgress :: "'id manager \<Rightarrow> 'id manager" where
  "resetProgress m = m\<lparr>operationInProgress := False, currentOperation := None\<rparr>"

text \<open>
  The user's click on Cancel is handled while the loop is suspended in an \<^verbatim>\<open>await\<close>; the
  handler is \<open>cancelCurrentOperation\<close>. A pass of a loop has one such point here, after
  its request is sent and before the answer is looked at. The progress modal has a static
  backdrop, and Cancel is the one button it offers while an operation runs.
\<close>

definition await_events :: "'id env \<Rightarrow> nat \<Rightarrow> 'id manager \<Rightarrow> 'id manager" where
  "await_events e i m = (if cancelClick e i then cancelCurrentOperation m else m)"

subsection \<open>The batched loops\<close>

text \<open>
  \<^verbatim>\<open>executeBulkUpdate\<close> and \<^verbatim>\<open>bulkActivateDeactivate\<close> hold the same loop, with batch
  sizes 10 and 20, their own endpoint and body, and their own progress text. The loop is
  written once, over which of the two it is.
\<close>

datatype batch_kind =
    FieldUpdate "string list"     \<comment> \<open>the loop of \<^verbatim>\<open>executeBulkUpdate\<close>, with \<^verbatim>\<open>updateData.fields\<close>\<close>
  | ActivateDeactivate bool       \<comment> \<open>the loop of \<^verbatim>\<open>bulkActivateDeactivate(activate)\<close>\<close>

fun batchSize :: "batch_kind \<Rightarrow> nat" where
  "batchSize (FieldUpdate fs) = 10"
| "batchSize (ActivateDeactivate activate) = 20"

fun batch_request :: "batch_kind \<Rightarrow> 'id list \<Rightarrow> 'id request" where
  "batch_request (FieldUpdate fs) batch = BulkUpdateRequest batch fs"
| "batch_request (ActivateDeactivate activate) batch = BulkActivateRequest batch activate"

fun batch_caption :: "batch_kind \<Rightarrow> nat \<Rightarrow> nat \<Rightarrow> caption" where
  "batch_caption (FieldUpdate fs) done n = Updated done n"
| "batch_caption (ActivateDeactivate activate) done n = Activated activate done n"

text \<open>\<^verbatim>\<open>xs.slice(a, b)\<close> for \<open>0 \<le> a \<le> b\<close>.\<close>

definition slice :: "'a list \<Rightarrow> nat \<Rightarrow> nat \<Rightarrow> 'a list" where
  "slice xs a b = take (b - a) (drop a xs)"

text \<open>
  \<^verbatim>\<open>errors.push(...(result.errors || ['Unknown error in batch']))\<close>: the entries pushed,
  or the message of the TypeError thrown, whose wording is the engine's and comes with the
  environment.
\<close>

fun pushed_errors :: "string \<Rightarrow> errors_field \<Rightarrow> string + 'id message list" where
  "pushed_errors notIterable Falsy = Inr [UnknownErrorInBatch]"
| "pushed_errors notIterable (Array es) = Inr (map ServerError es)"
| "pushed_errors notIterable (Str s) =
     (if s = [] then Inr [UnknownErrorInBatch] else Inr (map (\<lambda>c. ServerError [c]) s))"
| "pushed_errors notIterable NotIterable = Inl notIterable"

text \<open>
  The state of a loop: the manager and the locals \<^verbatim>\<open>completed\<close> and \<^verbatim>\<open>errors\<close>.
\<close>

type_synonym 'id loop_state = "'id manager \<times> nat \<times> 'id message list"

text \<open>One pass of the body of the batched loop, at index \<open>i\<close>.\<close>

definition batch_step ::
  "batch_kind \<Rightarrow> 'id env \<Rightarrow> 'id list \<Rightarrow> nat \<Rightarrow> 'id loop_state \<Rightarrow> 'id loop_state" where
  "batch_step k e selectedIds i st =
     (case st of (m, done, errs) \<Rightarrow>
        let batch = slice selectedIds i (i + batchSize k);
            req = batch_request k batch;
            m1 = await_events e i (m\<lparr>requests := requests m @ [req]\<rparr>)
        in (case respond e i req of
              Rejected msg \<Rightarrow> (m1, done, errs @ [BatchError msg])
            | Succeeded \<Rightarrow>
                (progress_update (done + length batch) (length selectedIds)
                   (batch_caption k (done + length batch) (length selectedIds)) m1,
                 done + length batch, errs)
            | Failed ef err \<Rightarrow>
                (case pushed_errors (typeErrorText e) ef of
                   Inr es \<Rightarrow> (m1, done, errs @ es)
                 | Inl msg \<Rightarrow> (m1, done, errs @ [BatchError msg]))))"

function batch_loop ::
  "batch_kind \<Rightarrow> 'id env \<Rightarrow> 'id list \<Rightarrow> nat \<Rightarrow> 'id loop_state \<Rightarrow> 'id loop_state" where
  "batch_loop k e selectedIds i st =
     (if i < length selectedIds
      then batch_loop k e selectedIds (i + batchSize k) (batch_step k e selectedIds i st)
      else st)"
  by pat_completeness auto
termination
proof (relation "measure (\<lambda>(k, e, selectedIds, i, st). length selectedIds - i)")
  show "wf (measure (\<lambda>(k, e, selectedIds, i, st). length selectedIds - i))"
    by simp
next
  fix k :: batch_kind and e :: "'id env" and selectedIds :: "'id list" and i :: nat
    and st :: "'id loop_state"
  assume "i < length selectedIds"
  then show "((k, e, selectedIds, i + batchSize k, batch_step k e selectedIds i st),
              (k, e, selectedIds, i, st))
             \<in> measure (\<lambda>(k, e, selectedIds, i, st). length selectedIds - i)"
    by (cases k) auto
qed

declare batch_loop.simps [simp del]

subsection \<open>The per-item loop of the stock adjustment\<close>

definition stock_step :: "'id env \<Rightarrow> 'id list \<Rightarrow> nat \<Rightarrow> 'id loop_state \<Rightarrow> 'id loop_state" where
  "stock_step e selectedIds i st =
     (case st of (m, done, errs) \<Rightarrow>
        let productId = selectedIds ! i;
            m0 = progress_updateCurrent (ProcessingProduct productId) m;
            req = AdjustStockRequest productId;
            m1 = await_events e i (m0\<lparr>requests := requests m0 @ [req]\<rparr>)
        in (case respond e i req of
              Rejected msg \<Rightarrow> (m1, done, errs @ [ProductError productId msg])
            | Succeeded \<Rightarrow>
                (progress_update (done + 1) (length selectedIds)
                   (Adjusted (done + 1) (length selectedIds)) m1,
                 done + 1, errs)
            | Failed ef err \<Rightarrow> (m1, done, errs @ [ProductError productId err])))"

function stock_loop :: "'id env \<Rightarrow> 'id list \<Rightarrow> nat \<Rightarrow> 'id loop_state \<Rightarrow> 'id loop_state" where
  "stock_loop e selectedIds i st =
     (if i < length selectedIds
      then stock_loop e selectedIds (i + 1) (stock_step e selectedIds i st)
      else st)"
  by pat_completeness auto
termination
  by (relation "measure (\<lambda>(e, selectedIds, i, st). length selectedIds - i)") auto

declare stock_loop.simps [simp del]

subsection \<open>Operation functions and \<^verbatim>\<open>executeOperation\<close>\<close>

text \<open>
  An operation function is the \<^verbatim>\<open>async (progress) => {...}\<close> handed to
  \<^verbatim>\<open>executeOperation\<close>: it returns the object \<^verbatim>\<open>{success, completed, total, errors}\<close>,
  or throws (\<open>Inl\<close>, with the error's message).
\<close>

type_synonym 'id operation = "'id manager \<Rightarrow> 'id manager \<times> (string + 'id job_result)"

definition finished :: "'id list \<Rightarrow> 'id loop_state \<Rightarrow> 'id manager \<times> (string + 'id job_result)" where
  "finished selectedIds st =
     (case st of (m, done, errs) \<Rightarrow>
        (m, Inr \<lparr>success = (length errs = 0), completed = done,
                 total = length selectedIds, errors = errs\<rparr>))"

definition batch_operation :: "batch_kind \<Rightarrow> 'id env \<Rightarrow> 'id operation" where
  "batch_operation k e m =
     (let selectedIds = selectedItems m
      in finished selectedIds (batch_loop k e selectedIds 0 (m, 0, [])))"

definition stock_operation :: "'id env \<Rightarrow> 'id operation" where
  "stock_operation e m =
     (let selectedIds = selectedItems m
      in finished selectedIds (stock_loop e selectedIds 0 (m, 0, [])))"

text \<open>
  \<^verbatim>\<open>executeOperation(title, operationFunc)\<close> in its three parts: the statements before the
  \<^verbatim>\<open>try\<close> (the flag, the reset of the progress modal, a new \<^verbatim>\<open>progress\<close> object), the
  \<^verbatim>\<open>try\<close> with its \<^verbatim>\<open>catch\<close> around the awaited operation function, and the
  \<^verbatim>\<open>finally\<close>.
\<close>

definition operation_setup :: "string \<Rightarrow> 'id manager \<Rightarrow> 'id manager" where
  "operation_setup title m =
     m\<lparr>operationInProgress := True, currentOperation := Some title,
       progressTitle := title, itemsCount := length (selectedItems m),
       successCount := 0, errorCount := 0,
       progressCount := (0, length (selectedItems m)),
       progressText := StartingOperation, currentItem := Preparing,
       errorLogVisible := False, errorLog := [],
       cancelVisible := True, closeVisible := False,
       ui := ui m @ [ModalShown BulkProgressModal],
       progressCalls := [], job := None\<rparr>"

definition operation_outcome :: "'id manager \<times> (string + 'id job_result) \<Rightarrow> 'id manager" where
  "operation_outcome returned =
     (case returned of
        (m2, Inr result) \<Rightarrow>
          let m3 = foldl (\<lambda>s error. progress_addError error s) m2 (errors result);
              successMessage =
                (if success result
                 then CompletedSuccessfully (completed result)
                 else CompletedWithErrors (length (errors result)) (completed result))
          in showAlert successMessage
               (if success result then success_alert else warning_alert)
               (m3\<lparr>progressText := successMessage, job := Some result\<rparr>)
      | (m2, Inl msg) \<Rightarrow>
          showAlert (OperationFailed msg) error_alert
            (progress_addError (FatalError msg)
               (m2\<lparr>progressText := OperationFailed msg\<rparr>)))"

definition executeOperation :: "string \<Rightarrow> 'id operation \<Rightarrow> 'id manager \<Rightarrow> 'id manager" where
  "executeOperation title operationFunc m =
     (let m4 = operation_outcome (operationFunc (operation_setup title m))
      in m4\<lparr>operationInProgress := False, cancelVisible := False, closeVisible := True\<rparr>)"

subsection \<open>Entry points\<close>

text \<open>
  A \<^verbatim>\<open>FormData\<close> is its entries in order; \<^verbatim>\<open>getAll(name)\<close> reads the values under a
  name. \<^verbatim>\<open>parseUpdateFormData\<close> returns the checked fields and their parsed values; only
  the fields decide what the script does, and only they are kept.
\<close>

type_synonym form_data = "(string \<times> string) list"

definition getAll :: "form_data \<Rightarrow> string \<Rightarrow> string list" where
  "getAll formData name = map snd (filter (\<lambda>entry. fst entry = name) formData)"

record update_data =
  update_fields :: "string list"    \<comment> \<open>\<^verbatim>\<open>updateData.fields\<close>\<close>

definition parseUpdateFormData :: "form_data \<Rightarrow> update_data" where
  "parseUpdateFormData formData = \<lparr>update_fields = getAll formData ''update_fields''\<rparr>"

definition executeBulkUpdate :: "'id env \<Rightarrow> form_data \<Rightarrow> 'id manager \<Rightarrow> 'id manager" where
  "executeBulkUpdate e formData m =
     (let updateData = parseUpdateFormData formData
      in if length (update_fields updateData) = 0
         then showAlert SelectAtLeastOneField warning_alert m
         else refreshProductList
                (executeOperation ''Bulk Update Products''
                   (batch_operation (FieldUpdate (update_fields updateData)) e)
                   (m\<lparr>ui := ui m @ [ModalHidden BulkUpdateModal]\<rparr>)))"

definition executeBulkStockAdjustment :: "'id env \<Rightarrow> form_data \<Rightarrow> 'id manager \<Rightarrow> 'id manager" where
  "executeBulkStockAdjustment e formData m =
     refreshProductList
       (executeOperation ''Bulk Stock Adjustment'' (stock_operation e)
          (m\<lparr>ui := ui m @ [ModalHidden BulkStockModal]\<rparr>))"

definition bulkActivateDeactivate :: "'id env \<Rightarrow> bool \<Rightarrow> 'id manager \<Rightarrow> 'id manager" where
  "bulkActivateDeactivate e activate m =
     (let title = (if activate then ''Bulk Activate Products'' else ''Bulk Deactivate Products'')
      in if \<not> confirmAnswer e then m
         else refreshProductList
                (executeOperation title (batch_operation (ActivateDeactivate activate) e) m))"

text \<open>
  \<^verbatim>\<open>loadSelectOptions\<close> asks for the categories and then for the suppliers, in one
  \<^verbatim>\<open>try\<close>: when the first request is rejected, or its body cannot be read as a list, the
  error is caught and the suppliers are not asked for. The form's submit handler is
  \<open>executeBulkUpdate\<close>.
\<close>

definition loadSelectOptions :: "'id env \<Rightarrow> 'id manager \<Rightarrow> 'id manager" where
  "loadSelectOptions e m =
     (let m1 = m\<lparr>requests := requests m @ [GetCategories]\<rparr>
      in if getResolves e GetCategories
         then m1\<lparr>requests := requests m1 @ [GetSuppliers]\<rparr>
         else m1)"

definition showBulkUpdateModal :: "'id env \<Rightarrow> 'id manager \<Rightarrow> 'id manager" where
  "showBulkUpdateModal e m =
     (let m1 = loadSelectOptions e m in m1\<lparr>ui := ui m1 @ [ModalShown BulkUpdateModal]\<rparr>)"

definition loadLocations :: "'id manager \<Rightarrow> 'id manager" where
  "loadLocations m = m\<lparr>requests := requests m @ [GetLocations]\<rparr>"

definition showStockAdjustmentModal :: "'id manager \<Rightarrow> 'id manager" where
  "showStockAdjustmentModal m =
     (let m1 = loadLocations m in m1\<lparr>ui := ui m1 @ [ModalShown BulkStockModal]\<rparr>)"

definition exportSelected :: "'id manager \<Rightarrow> 'id manager" where
  "exportSelected m =
     (let selectedIds = selectedItems m
      in showAlert (ExportStarted (length selectedIds)) success_alert
           (m\<lparr>requests := requests m @ [ExportRequest selectedIds]\<rparr>))"

text \<open>
  \<^verbatim>\<open>handleBulkAction(action, button)\<close>. None of the methods it awaits throws here (the
  page's elements exist), so its \<^verbatim>\<open>catch\<close> is not entered; its \<^verbatim>\<open>finally\<close> restores the
  button.
\<close>

definition handleBulkAction :: "'id env \<Rightarrow> string \<Rightarrow> 'id manager \<Rightarrow> 'id manager" where
  "handleBulkAction e action m =
     (if operationInProgress m
      then showAlert AnotherOperationInProgress warning_alert m
      else if length (selectedItems m) = 0
      then showAlert PleaseSelectItemsFirst warning_alert m
      else
        let m1 = m\<lparr>ui := ui m @ [ButtonProcessing]\<rparr>;
            m2 = (if action = ''update'' then showBulkUpdateModal e m1
                  else if action = ''adjust-stock'' then showStockAdjustmentModal m1
                  else if action = ''activate'' then bulkActivateDeactivate e True m1
                  else if action = ''deactivate'' then bulkActivateDeactivate e False m1
                  else if action = ''export'' then exportSelected m1
                  else showAlert (UnknownAction action) error_alert m1)
        in m2\<lparr>ui := ui m2 @ [ButtonRestored]\<rparr>)"

text \<open>
  The \<^verbatim>\<open>keydown\<close> listener of \<^verbatim>\<open>setupEventListeners\<close>: with Ctrl or Meta held, \<^verbatim>\<open>a\<close>
  inside the table container selects all visible items (the values of the page's item
  checkboxes; the header checkbox is on the page) and \<^verbatim>\<open>u\<close> opens the update form when
  the selection is not empty.
\<close>

definition keydown ::
  "'id env \<Rightarrow> bool \<Rightarrow> string \<Rightarrow> bool \<Rightarrow> 'id list \<Rightarrow> 'id manager \<Rightarrow> 'id manager" where
  "keydown e ctrlOrMeta key inTableContainer checkboxes m =
     (if ctrlOrMeta
      then if key = ''a''
           then (if inTableContainer then toggleSelectAll True checkboxes m else m)
           else if key = ''u''
           then (if length (selectedItems m) > 0 then showBulkUpdateModal e m else m)
           else m
      else m)"

subsection \<open>Scenarios\<close>

text \<open>Concrete environments and states, used to run the definitions.\<close>

definition all_succeed :: "nat env" where
  "all_succeed =
     \<lparr>respond = (\<lambda>i req. Succeeded), cancelClick = (\<lambda>i. False),
      confirmAnswer = True, getResolves = (\<lambda>req. True),
      typeErrorText = ''Spread syntax requires ...iterable[Symbol.iterator] to be a function''\<rparr>"

text \<open>The request at index 10 (the second batch of ten) is rejected by the network.\<close>

definition second_chunk_rejected :: "nat env" where
  "second_chunk_rejected =
     \<lparr>respond = (\<lambda>i req. if i = 10 then Rejected ''Failed to fetch'' else Succeeded),
      cancelClick = (\<lambda>i. False), confirmAnswer = True, getResolves = (\<lambda>req. True),
      typeErrorText = ''Spread syntax requires ...iterable[Symbol.iterator] to be a function''\<rparr>"

text \<open>
  The request at index 10 is answered with \<^verbatim>\<open>{"success": false, "errors": []}\<close>.
\<close>

definition second_chunk_fails_without_errors :: "nat env" where
  "second_chunk_fails_without_errors =
     \<lparr>respond = (\<lambda>i req. if i = 10 then Failed (Array []) ''undefined'' else Succeeded),
      cancelClick = (\<lambda>i. False), confirmAnswer = True, getResolves = (\<lambda>req. True),
      typeErrorText = ''Spread syntax requires ...iterable[Symbol.iterator] to be a function''\<rparr>"

text \<open>Every request succeeds; the user clicks Cancel while the first one is awaited.\<close>

definition cancel_during_first :: "nat env" where
  "cancel_during_first =
     \<lparr>respond = (\<lambda>i req. Succeeded), cancelClick = (\<lambda>i. i = 0),
      confirmAnswer = True, getResolves = (\<lambda>req. True),
      typeErrorText = ''Spread syntax requires ...iterable[Symbol.iterator] to be a function''\<rparr>"

text \<open>The first \<open>n\<close> products ticked through the header checkbox.\<close>

definition selected :: "nat \<Rightarrow> nat manager" where
  "selected n = toggleSelectAll True [1..<Suc n] constructor"

text \<open>
  The manager while the second request of a field update of 25 products is awaited: the
  first pass of the loop is done, the second request is sent, and two batches are still
  to be answered.
\<close>

definition mid_run :: "nat env \<Rightarrow> nat manager" where
  "mid_run e =
     (let m1 = fst (batch_step (FieldUpdate [''cost_price'']) e [1..<26] 0
                      (operation_setup ''Bulk Update Products''
                         ((selected 25)\<lparr>ui := ui (selected 25) @ [ModalHidden BulkUpdateModal]\<rparr>),
                       0, []))
      in m1\<lparr>requests := requests m1 @ [BulkUpdateRequest [11..<21] [''cost_price'']]\<rparr>)"

definition busy :: "nat manager" where
  "busy = (selected 3)\<lparr>operationInProgress := True\<rparr>"

definition sample_events :: "nat selection_event list" where
  "sample_events = [ItemChanged (1, True), ItemChanged (2, True), ItemChanged (1, True)]"

definition cost_price_checked :: form_data where
  "cost_price_checked =
     [(''update_fields'', ''cost_price''), (''cost_price_method'', ''set''),
      (''cost_price_value'', ''12.50'')]"

definition no_fields_checked :: form_data where
  "no_fields_checked = [(''cost_price_method'', ''set''), (''cost_price_value'', ''12.50'')]"

section \<open>Properties\<close>

subsection \<open>The selection is a set\<close>

lemma distinct_set_add: "distinct xs \<Longrightarrow> distinct (set_add x xs)"
  by (simp add: set_add_def)

lemma distinct_set_delete: "distinct xs \<Longrightarrow> distinct (set_delete x xs)"
  by (simp add: set_delete_def distinct_removeAll)

lemma selectedItems_updateSelectionToolbar [simp]:
  "selectedItems (updateSelectionToolbar m) = selectedItems m"
  by (simp add: updateSelectionToolbar_def)

lemma selectedItems_handleItemSelection:
  "selectedItems (handleItemSelection checkbox m) =
     (if snd checkbox then set_add (fst checkbox) (selectedItems m)
      else set_delete (fst checkbox) (selectedItems m))"
  by (simp add: handleItemSelection_def Let_def)

lemma distinct_handleItemSelection:
  "distinct (selectedItems m) \<Longrightarrow> distinct (selectedItems (handleItemSelection checkbox m))"
  by (simp add: selectedItems_handleItemSelection distinct_set_add distinct_set_delete)

lemma distinct_toggleSelectAll:
  "distinct (selectedItems m) \<Longrightarrow> distinct (selectedItems (toggleSelectAll checked vs m))"
  unfolding toggleSelectAll_def
  by (induction vs arbitrary: m) (simp_all add: distinct_handleItemSelection)

lemma distinct_selection_step:
  "distinct (selectedItems m) \<Longrightarrow> distinct (selectedItems (selection_step m ev))"
  by (cases ev)
     (simp_all add: distinct_handleItemSelection distinct_toggleSelectAll clearSelection_def)

lemma distinct_after_events: "distinct (selectedItems (after_events es))"
  unfolding after_events_def
  by (induction es rule: rev_induct) (simp_all add: constructor_def distinct_selection_step)

text \<open>
  Claim C9. After any run of selection events from the constructor the selection has no
  duplicates and its size is the number of distinct selected ids; a selection event for an
  id \<open>x\<close> that is already selected and a deselection of an id \<open>y\<close> that is not selected
  both leave the selection as it is; selecting adds the id to the set of selected ids and
  deselecting removes it.
\<close>

theorem selection_is_a_set:
  "distinct (selectedItems (after_events es))
   \<and> length (selectedItems (after_events es)) = card (set (selectedItems (after_events es)))
   \<and> (x \<in> set (selectedItems (after_events es)) \<longrightarrow>
        selectedItems (handleItemSelection (x, True) (after_events es))
          = selectedItems (after_events es))
   \<and> (y \<notin> set (selectedItems (after_events es)) \<longrightarrow>
        selectedItems (handleItemSelection (y, False) (after_events es))
          = selectedItems (after_events es))
   \<and> set (selectedItems (handleItemSelection (x, True) (after_events es)))
        = insert x (set (selectedItems (after_events es)))
   \<and> set (selectedItems (handleItemSelection (y, False) (after_events es)))
        = set (selectedItems (after_events es)) - {y}"
proof -
  have d: "distinct (selectedItems (after_events es))"
    by (rule distinct_after_events)
  then have "length (selectedItems (after_events es)) = card (set (selectedItems (after_events es)))"
    by (simp add: distinct_card)
  with d show ?thesis
    by (auto simp: selectedItems_handleItemSelection set_add_def set_delete_def)
qed

theorem selection_is_a_set_witness:
  "1 \<in> set (selectedItems (after_events sample_events))
   \<and> 3 \<notin> set (selectedItems (after_events sample_events))
   \<and> selectedItems (handleItemSelection (1, True) (after_events sample_events)) = [1, 2]
   \<and> selectedItems (handleItemSelection (3, False) (after_events sample_events)) = [1, 2]
   \<and> length (selectedItems (after_events sample_events)) = 2"
proof -
  have s: "selectedItems (after_events sample_events) = [1, 2]"
    by code_simp
  from selection_is_a_set [of sample_events 1 3] s show ?thesis
    by simp
qed

subsection \<open>The guards of the entry points\<close>

text \<open>
  \<open>executeOperation\<close> sets the flag before the operation function runs, so a bulk action
  on the state the operation starts from is turned away.
\<close>

lemma rejected_once_started:
  "operationInProgress (operation_setup title m)"
  "handleBulkAction e action (operation_setup title m)
     = showAlert AnotherOperationInProgress warning_alert (operation_setup title m)"
  by (simp_all add: operation_setup_def handleBulkAction_def)

text \<open>
  The guard itself: while \<open>operationInProgress\<close> is set, \<open>handleBulkAction\<close> with any
  action only shows the warning "Another operation is already in progress". No request is
  sent, no modal is shown, the progress calls and the finished job are untouched, and the
  flag stays set.
\<close>

theorem in_progress_guard:
  "operationInProgress m \<Longrightarrow>
     handleBulkAction e action m
       = m\<lparr>alerts := alerts m @ [(AnotherOperationInProgress, warning_alert)]\<rparr>
     \<and> requests (handleBulkAction e action m) = requests m
     \<and> job (handleBulkAction e action m) = job m
     \<and> progressCalls (handleBulkAction e action m) = progressCalls m
     \<and> ui (handleBulkAction e action m) = ui m
     \<and> operationInProgress (handleBulkAction e action m)"
  by (simp add: handleBulkAction_def showAlert_def)

theorem in_progress_guard_witness:
  "operationInProgress busy
   \<and> requests (handleBulkAction all_succeed ''activate'' busy) = []
   \<and> ui (handleBulkAction all_succeed ''activate'' busy) = []
   \<and> alerts (handleBulkAction all_succeed ''activate'' busy)
       = [(AnotherOperationInProgress, warning_alert)]"
proof -
  have h: "operationInProgress busy"
    by (simp add: busy_def)
  have r: "requests busy = []" "alerts busy = []" "ui busy = []"
    by code_simp+
  from in_progress_guard [OF h, of all_succeed "''activate''"] r h show ?thesis
    by simp
qed

text \<open>
  Claim C7, run on the script. The flag is not the same as an operation being in progress,
  and not every way into an operation tests it. First, a field update of 25 products is
  under way, two of its three requests sent, and the user has clicked Cancel during the
  first: the flag is cleared although the loop goes on, and the toolbar's Activate is
  accepted, shows no in-progress warning, resets the progress modal, sends its own two
  requests and leaves a second job. Second, the same update is under way with the flag
  set: Ctrl+U opens the update form without a warning, and submitting the form runs a
  second field update, three more requests and a second job.
\<close>

theorem second_job_while_running:
  "\<not> operationInProgress (mid_run cancel_during_first)
   \<and> length (requests (mid_run cancel_during_first)) = 2
   \<and> job (mid_run cancel_during_first) = None
   \<and> alerts (handleBulkAction all_succeed ''activate'' (mid_run cancel_during_first))
       = [(OperationCancelled, warning_alert), (CompletedSuccessfully 25, success_alert)]
   \<and> requests (handleBulkAction all_succeed ''activate'' (mid_run cancel_during_first))
       = requests (mid_run cancel_during_first)
         @ [BulkActivateRequest [1..<21] True, BulkActivateRequest [21..<26] True]
   \<and> job (handleBulkAction all_succeed ''activate'' (mid_run cancel_during_first))
       = Some \<lparr>success = True, completed = 25, total = 25, errors = []\<rparr>
   \<and> operationInProgress (mid_run all_succeed)
   \<and> length (requests (mid_run all_succeed)) = 2
   \<and> alerts (keydown all_succeed True ''u'' False [] (mid_run all_succeed)) = []
   \<and> ui (keydown all_succeed True ''u'' False [] (mid_run all_succeed))
       = ui (mid_run all_succeed) @ [ModalShown BulkUpdateModal]
   \<and> requests (executeBulkUpdate all_succeed cost_price_checked
                  (keydown all_succeed True ''u'' False [] (mid_run all_succeed)))
       = requests (keydown all_succeed True ''u'' False [] (mid_run all_succeed))
         @ [BulkUpdateRequest [1..<11] [''cost_price''],
            BulkUpdateRequest [11..<21] [''cost_price''],
            BulkUpdateRequest [21..<26] [''cost_price'']]
   \<and> job (executeBulkUpdate all_succeed cost_price_checked
             (keydown all_succeed True ''u'' False [] (mid_run all_succeed)))
       = Some \<lparr>success = True, completed = 25, total = 25, errors = []\<rparr>"
  by code_simp

text \<open>
  Claim C8. With an empty selection, \<open>handleBulkAction\<close> with any action only shows a
  warning ("Please select items first", or the in-progress warning when an operation is
  running): no request is sent, no modal is shown, no job is recorded and the in-progress
  flag is as before.
\<close>

theorem empty_selection_guard:
  "selectedItems m = [] \<Longrightarrow>
     handleBulkAction e action m
       = m\<lparr>alerts := alerts m @
           [(if operationInProgress m then AnotherOperationInProgress
             else PleaseSelectItemsFirst, warning_alert)]\<rparr>
     \<and> requests (handleBulkAction e action m) = requests m
     \<and> job (handleBulkAction e action m) = job m
     \<and> progressCalls (handleBulkAction e action m) = progressCalls m
     \<and> ui (handleBulkAction e action m) = ui m
     \<and> operationInProgress (handleBulkAction e action m) = operationInProgress m"
  by (simp add: handleBulkAction_def showAlert_def)

theorem empty_selection_guard_witness:
  "selectedItems (constructor :: nat manager) = []
   \<and> alerts (handleBulkAction all_succeed ''update'' constructor)
       = [(PleaseSelectItemsFirst, warning_alert)]
   \<and> requests (handleBulkAction all_succeed ''update'' constructor) = []
   \<and> ui (handleBulkAction all_succeed ''update'' constructor) = []
   \<and> job (handleBulkAction all_succeed ''update'' constructor) = None"
proof -
  have h: "selectedItems (constructor :: nat manager) = []"
    by (simp add: constructor_def)
  from empty_selection_guard [OF h, of all_succeed "''update''"] h show ?thesis
    by (simp add: constructor_def)
qed

text \<open>
  Claim C10. When the submitted form has no \<^verbatim>\<open>update_fields\<close> entry, \<open>executeBulkUpdate\<close>
  only shows the warning "Please select at least one field to update": no request is
  sent, the progress modal is not shown, and the selection and the in-progress flag are
  as before.
\<close>

theorem no_update_fields_guard:
  "getAll formData ''update_fields'' = [] \<Longrightarrow>
     executeBulkUpdate e formData m
       = m\<lparr>alerts := alerts m @ [(SelectAtLeastOneField, warning_alert)]\<rparr>
     \<and> requests (executeBulkUpdate e formData m) = requests m
     \<and> ui (executeBulkUpdate e formData m) = ui m
     \<and> selectedItems (executeBulkUpdate e formData m) = selectedItems m
     \<and> operationInProgress (executeBulkUpdate e formData m) = operationInProgress m"
  by (simp add: executeBulkUpdate_def parseUpdateFormData_def showAlert_def)

theorem no_update_fields_guard_witness:
  "getAll no_fields_checked ''update_fields'' = []
   \<and> alerts (executeBulkUpdate all_succeed no_fields_checked (selected 3))
       = [(SelectAtLeastOneField, warning_alert)]
   \<and> requests (executeBulkUpdate all_succeed no_fields_checked (selected 3)) = []
   \<and> ui (executeBulkUpdate all_succeed no_fields_checked (selected 3)) = []
   \<and> selectedItems (executeBulkUpdate all_succeed no_fields_checked (selected 3)) = [1, 2, 3]
   \<and> \<not> operationInProgress (executeBulkUpdate all_succeed no_fields_checked (selected 3))"
proof -
  have h: "getAll no_fields_checked ''update_fields'' = []"
    by code_simp
  have r: "alerts (selected 3) = []" "requests (selected 3) = []" "ui (selected 3) = []"
    "selectedItems (selected 3) = [1, 2, 3]" "\<not> operationInProgress (selected 3)"
    by code_simp+
  from no_update_fields_guard [OF h, of all_succeed "selected 3"] h r show ?thesis
    by simp
qed

subsection \<open>The loops, step by step\<close>

lemma length_slice: "length (slice xs i (i + b)) = min b (length xs - i)"
  by (simp add: slice_def)

lemma slice_append_drop: "slice xs i (i + b) @ drop (i + b) xs = drop i xs"
proof -
  have "take b (drop i xs) @ drop b (drop i xs) = drop i xs"
    by (rule append_take_drop_id)
  then show ?thesis
    by (simp add: slice_def add.commute)
qed

lemma chunk_count_step:
  fixes n i b :: nat
  assumes "i < n" and "0 < b"
  shows "(n - i + b - 1) div b = Suc ((n - (i + b) + b - 1) div b)"
proof -
  have "n - i + b - 1 = (n - i - 1) + b"
    using assms by simp
  then have l: "(n - i + b - 1) div b = Suc ((n - i - 1) div b)"
    using div_add_self2 [of b "n - i - 1"] assms by simp
  show ?thesis
  proof (cases "b \<le> n - i")
    case True
    then have "n - (i + b) + b - 1 = n - i - 1"
      using assms by simp
    with l show ?thesis
      by simp
  next
    case False
    then have "n - (i + b) = 0" and "n - i - 1 < b"
      using assms by simp_all
    with l assms show ?thesis
      by simp
  qed
qed


lemma batchSize_pos: "0 < batchSize k"
  by (cases k) simp_all

lemma await_events_fields [simp]:
  "requests (await_events e i m) = requests m"
  "selectedItems (await_events e i m) = selectedItems m"
  "successCount (await_events e i m) = successCount m"
  "errorCount (await_events e i m) = errorCount m"
  "errorLog (await_events e i m) = errorLog m"
  "itemsCount (await_events e i m) = itemsCount m"
  "progressCalls (await_events e i m) = progressCalls m"
  "job (await_events e i m) = job m"
  "ui (await_events e i m) = ui m"
  by (simp_all add: await_events_def cancelCurrentOperation_def showAlert_def)

lemma progress_update_fields [simp]:
  "requests (progress_update c n msg m) = requests m"
  "selectedItems (progress_update c n msg m) = selectedItems m"
  "successCount (progress_update c n msg m) = c"
  "errorCount (progress_update c n msg m) = errorCount m"
  "errorLog (progress_update c n msg m) = errorLog m"
  "itemsCount (progress_update c n msg m) = itemsCount m"
  "progressCalls (progress_update c n msg m) = progressCalls m @ [(c, n, msg)]"
  "job (progress_update c n msg m) = job m"
  "ui (progress_update c n msg m) = ui m"
  by (simp_all add: progress_update_def)

lemma batch_step_requests:
  "requests (fst (batch_step k e ids i st))
     = requests (fst st) @ [batch_request k (slice ids i (i + batchSize k))]"
  by (cases st) (simp add: batch_step_def Let_def split: response.split sum.split)

lemma batch_step_done:
  "fst (snd (batch_step k e ids i st))
     = fst (snd st)
       + (if respond e i (batch_request k (slice ids i (i + batchSize k))) = Succeeded
          then length (slice ids i (i + batchSize k)) else 0)"
  by (cases st) (simp add: batch_step_def Let_def split: response.split sum.split)

lemma batch_step_progressCalls:
  "progressCalls (fst (batch_step k e ids i st))
     = progressCalls (fst st)
       @ (if respond e i (batch_request k (slice ids i (i + batchSize k))) = Succeeded
          then [(fst (snd st) + length (slice ids i (i + batchSize k)), length ids,
                 batch_caption k (fst (snd st) + length (slice ids i (i + batchSize k)))
                   (length ids))]
          else [])"
  by (cases st) (simp add: batch_step_def Let_def split: response.split sum.split)

lemma batch_step_successCount:
  "successCount (fst st) = fst (snd st) \<Longrightarrow>
   successCount (fst (batch_step k e ids i st)) = fst (snd (batch_step k e ids i st))"
  by (cases st) (simp add: batch_step_def Let_def split: response.split sum.split)

lemma batch_step_errors_succeeded:
  "respond e i (batch_request k (slice ids i (i + batchSize k))) = Succeeded \<Longrightarrow>
   snd (snd (batch_step k e ids i st)) = snd (snd st)"
  by (cases st) (simp add: batch_step_def Let_def)

lemma batch_step_kept:
  "selectedItems (fst (batch_step k e ids i st)) = selectedItems (fst st)"
  "errorCount (fst (batch_step k e ids i st)) = errorCount (fst st)"
  "errorLog (fst (batch_step k e ids i st)) = errorLog (fst st)"
  "itemsCount (fst (batch_step k e ids i st)) = itemsCount (fst st)"
  "job (fst (batch_step k e ids i st)) = job (fst st)"
  "ui (fst (batch_step k e ids i st)) = ui (fst st)"
  by (cases st; simp add: batch_step_def Let_def split: response.split sum.split)+

lemma batch_loop_requests:
  "\<exists>bs. requests (fst (batch_loop k e ids i st))
            = requests (fst st) @ map (batch_request k) bs
        \<and> concat bs = drop i ids
        \<and> length bs = (length ids - i + batchSize k - 1) div batchSize k
        \<and> (\<forall>b\<in>set bs. 0 < length b \<and> length b \<le> batchSize k)
        \<and> (\<forall>j. Suc j < length bs \<longrightarrow> length (bs ! j) = batchSize k)"
proof (induction k e ids i st rule: batch_loop.induct)
  case (1 k e ids i st)
  show ?case
  proof (cases "i < length ids")
    case True
    let ?b = "slice ids i (i + batchSize k)"
    from 1 [OF True] obtain bs where
      r: "requests (fst (batch_loop k e ids (i + batchSize k) (batch_step k e ids i st)))
            = requests (fst (batch_step k e ids i st)) @ map (batch_request k) bs"
      and c: "concat bs = drop (i + batchSize k) ids"
      and l: "length bs = (length ids - (i + batchSize k) + batchSize k - 1) div batchSize k"
      and s: "\<forall>b\<in>set bs. 0 < length b \<and> length b \<le> batchSize k"
      and f: "\<forall>j. Suc j < length bs \<longrightarrow> length (bs ! j) = batchSize k"
      by blast
    have r': "requests (fst (batch_loop k e ids i st))
                = requests (fst st) @ map (batch_request k) (?b # bs)"
      using True r by (simp add: batch_loop.simps [of k e ids i st] batch_step_requests)
    have c': "concat (?b # bs) = drop i ids"
      using c by (simp add: slice_append_drop)
    have l': "length (?b # bs) = (length ids - i + batchSize k - 1) div batchSize k"
      using l chunk_count_step [OF True batchSize_pos, of k] by simp
    have lb: "length ?b = min (batchSize k) (length ids - i)"
      by (rule length_slice)
    have "0 < length ?b" and "length ?b \<le> batchSize k"
      using lb True batchSize_pos [of k] by simp_all
    with s have s': "\<forall>b\<in>set (?b # bs). 0 < length b \<and> length b \<le> batchSize k"
      by simp
    have f': "\<forall>j. Suc j < length (?b # bs) \<longrightarrow> length ((?b # bs) ! j) = batchSize k"
    proof (intro allI impI)
      fix j
      assume j: "Suc j < length (?b # bs)"
      show "length ((?b # bs) ! j) = batchSize k"
      proof (cases j)
        case 0
        from j have "0 < length bs"
          by (cases bs) simp_all
        with l have "batchSize k \<le> length ids - i"
          using batchSize_pos [of k]
          by (cases "batchSize k \<le> length ids - i") simp_all
        with lb 0 show ?thesis
          by simp
      next
        case (Suc j')
        with j f show ?thesis
          by simp
      qed
    qed
    from r' c' l' s' f' show ?thesis
      by blast
  next
    case False
    then have "batch_loop k e ids i st = st"
      by (simp add: batch_loop.simps [of k e ids i st])
    moreover from False have "(length ids - i + batchSize k - 1) div batchSize k = 0"
      using batchSize_pos [of k] by simp
    ultimately show ?thesis
      using False by (intro exI [of _ "[]"]) simp
  qed
qed



lemma batch_loop_successCount:
  "successCount (fst st) = fst (snd st) \<Longrightarrow>
   successCount (fst (batch_loop k e ids i st)) = fst (snd (batch_loop k e ids i st))"
proof (induction k e ids i st rule: batch_loop.induct)
  case (1 k e ids i st)
  show ?case
  proof (cases "i < length ids")
    case True
    with 1 show ?thesis
      by (simp add: batch_loop.simps [of k e ids i st] batch_step_successCount)
  next
    case False
    with 1 show ?thesis
      by (simp add: batch_loop.simps [of k e ids i st])
  qed
qed

lemma batch_loop_kept:
  "selectedItems (fst (batch_loop k e ids i st)) = selectedItems (fst st)
   \<and> errorCount (fst (batch_loop k e ids i st)) = errorCount (fst st)
   \<and> errorLog (fst (batch_loop k e ids i st)) = errorLog (fst st)
   \<and> itemsCount (fst (batch_loop k e ids i st)) = itemsCount (fst st)
   \<and> job (fst (batch_loop k e ids i st)) = job (fst st)
   \<and> ui (fst (batch_loop k e ids i st)) = ui (fst st)"
proof (induction k e ids i st rule: batch_loop.induct)
  case (1 k e ids i st)
  show ?case
  proof (cases "i < length ids")
    case True
    with 1 show ?thesis
      by (simp add: batch_loop.simps [of k e ids i st] batch_step_kept)
  next
    case False
    then show ?thesis
      by (simp add: batch_loop.simps [of k e ids i st])
  qed
qed

lemma batch_loop_progressCalls:
  "\<exists>cs. progressCalls (fst (batch_loop k e ids i st)) = progressCalls (fst st) @ cs
        \<and> sorted_wrt (<) (map fst cs)
        \<and> (\<forall>c\<in>set cs. fst (snd st) < fst c \<and> fst c \<le> fst (snd st) + (length ids - i)
                          \<and> fst (snd c) = length ids)"
proof (induction k e ids i st rule: batch_loop.induct)
  case (1 k e ids i st)
  show ?case
  proof (cases "i < length ids")
    case True
    let ?st = "batch_step k e ids i st"
    let ?b = "slice ids i (i + batchSize k)"
    from 1 [OF True] obtain cs where
      p: "progressCalls (fst (batch_loop k e ids (i + batchSize k) ?st))
            = progressCalls (fst ?st) @ cs"
      and s: "sorted_wrt (<) (map fst cs)"
      and b: "\<forall>c\<in>set cs. fst (snd ?st) < fst c
                \<and> fst c \<le> fst (snd ?st) + (length ids - (i + batchSize k))
                \<and> fst (snd c) = length ids"
      by blast
    have lb: "0 < length ?b" "length ?b = min (batchSize k) (length ids - i)"
      using True batchSize_pos [of k] by (simp_all add: length_slice)
    show ?thesis
    proof (cases "respond e i (batch_request k ?b) = Succeeded")
      case True
      let ?c = "(fst (snd st) + length ?b, length ids,
                 batch_caption k (fst (snd st) + length ?b) (length ids))"
      have d: "fst (snd ?st) = fst (snd st) + length ?b"
        using True by (simp add: batch_step_done)
      have "progressCalls (fst (batch_loop k e ids i st)) = progressCalls (fst st) @ (?c # cs)"
        using \<open>i < length ids\<close> p True
        by (simp add: batch_loop.simps [of k e ids i st] batch_step_progressCalls)
      moreover have "sorted_wrt (<) (map fst (?c # cs))"
        using s b d by simp
      moreover have "\<forall>c\<in>set (?c # cs). fst (snd st) < fst c
                       \<and> fst c \<le> fst (snd st) + (length ids - i) \<and> fst (snd c) = length ids"
        using b d lb by auto
      ultimately show ?thesis
        by blast
    next
      case False
      have d: "fst (snd ?st) = fst (snd st)"
        using False by (simp add: batch_step_done)
      have "progressCalls (fst (batch_loop k e ids i st)) = progressCalls (fst st) @ cs"
        using \<open>i < length ids\<close> p False
        by (simp add: batch_loop.simps [of k e ids i st] batch_step_progressCalls)
      moreover have "\<forall>c\<in>set cs. fst (snd st) < fst c
                       \<and> fst c \<le> fst (snd st) + (length ids - i) \<and> fst (snd c) = length ids"
        using b d by auto
      ultimately show ?thesis
        using s by blast
    qed
  next
    case False
    then have "batch_loop k e ids i st = st"
      by (simp add: batch_loop.simps [of k e ids i st])
    then show ?thesis
      by (intro exI [of _ "[]"]) simp
  qed
qed


lemma progress_updateCurrent_fields [simp]:
  "requests (progress_updateCurrent item m) = requests m"
  "selectedItems (progress_updateCurrent item m) = selectedItems m"
  "successCount (progress_updateCurrent item m) = successCount m"
  "errorCount (progress_updateCurrent item m) = errorCount m"
  "errorLog (progress_updateCurrent item m) = errorLog m"
  "itemsCount (progress_updateCurrent item m) = itemsCount m"
  "progressCalls (progress_updateCurrent item m) = progressCalls m"
  "job (progress_updateCurrent item m) = job m"
  "ui (progress_updateCurrent item m) = ui m"
  by (simp_all add: progress_updateCurrent_def)

lemma stock_step_requests:
  "requests (fst (stock_step e ids i st)) = requests (fst st) @ [AdjustStockRequest (ids ! i)]"
  by (cases st) (simp add: stock_step_def Let_def split: response.split)

lemma stock_step_done:
  "fst (snd (stock_step e ids i st))
     = fst (snd st) + (if respond e i (AdjustStockRequest (ids ! i)) = Succeeded then 1 else 0)"
  by (cases st) (simp add: stock_step_def Let_def split: response.split)

lemma stock_step_progressCalls:
  "progressCalls (fst (stock_step e ids i st))
     = progressCalls (fst st)
       @ (if respond e i (AdjustStockRequest (ids ! i)) = Succeeded
          then [(fst (snd st) + 1, length ids, Adjusted (fst (snd st) + 1) (length ids))]
          else [])"
  by (cases st) (simp add: stock_step_def Let_def split: response.split)

lemma stock_step_successCount:
  "successCount (fst st) = fst (snd st) \<Longrightarrow>
   successCount (fst (stock_step e ids i st)) = fst (snd (stock_step e ids i st))"
  by (cases st) (simp add: stock_step_def Let_def split: response.split)


lemma stock_step_kept:
  "selectedItems (fst (stock_step e ids i st)) = selectedItems (fst st)"
  "errorCount (fst (stock_step e ids i st)) = errorCount (fst st)"
  "errorLog (fst (stock_step e ids i st)) = errorLog (fst st)"
  "itemsCount (fst (stock_step e ids i st)) = itemsCount (fst st)"
  "job (fst (stock_step e ids i st)) = job (fst st)"
  "ui (fst (stock_step e ids i st)) = ui (fst st)"
  by (cases st; simp add: stock_step_def Let_def split: response.split)+

lemma stock_loop_requests:
  "requests (fst (stock_loop e ids i st))
     = requests (fst st) @ map AdjustStockRequest (drop i ids)"
proof (induction e ids i st rule: stock_loop.induct)
  case (1 e ids i st)
  show ?case
  proof (cases "i < length ids")
    case True
    then have "ids ! i # drop (Suc i) ids = drop i ids"
      by (rule Cons_nth_drop_Suc)
    then have "map AdjustStockRequest (drop i ids)
                 = AdjustStockRequest (ids ! i) # map AdjustStockRequest (drop (Suc i) ids)"
      by (metis list.simps(9))
    with 1 [OF True] True show ?thesis
      by (simp add: stock_loop.simps [of e ids i st] stock_step_requests)
  next
    case False
    then show ?thesis
      by (simp add: stock_loop.simps [of e ids i st])
  qed
qed


lemma stock_loop_successCount:
  "successCount (fst st) = fst (snd st) \<Longrightarrow>
   successCount (fst (stock_loop e ids i st)) = fst (snd (stock_loop e ids i st))"
proof (induction e ids i st rule: stock_loop.induct)
  case (1 e ids i st)
  show ?case
  proof (cases "i < length ids")
    case True
    with 1 show ?thesis
      by (simp add: stock_loop.simps [of e ids i st] stock_step_successCount)
  next
    case False
    with 1 show ?thesis
      by (simp add: stock_loop.simps [of e ids i st])
  qed
qed

lemma stock_loop_kept:
  "selectedItems (fst (stock_loop e ids i st)) = selectedItems (fst st)
   \<and> errorCount (fst (stock_loop e ids i st)) = errorCount (fst st)
   \<and> errorLog (fst (stock_loop e ids i st)) = errorLog (fst st)
   \<and> itemsCount (fst (stock_loop e ids i st)) = itemsCount (fst st)
   \<and> job (fst (stock_loop e ids i st)) = job (fst st)
   \<and> ui (fst (stock_loop e ids i st)) = ui (fst st)"
proof (induction e ids i st rule: stock_loop.induct)
  case (1 e ids i st)
  show ?case
  proof (cases "i < length ids")
    case True
    with 1 show ?thesis
      by (simp add: stock_loop.simps [of e ids i st] stock_step_kept)
  next
    case False
    then show ?thesis
      by (simp add: stock_loop.simps [of e ids i st])
  qed
qed


lemma stock_loop_progressCalls:
  "\<exists>cs. progressCalls (fst (stock_loop e ids i st)) = progressCalls (fst st) @ cs
        \<and> sorted_wrt (<) (map fst cs)
        \<and> (\<forall>c\<in>set cs. fst (snd st) < fst c \<and> fst c \<le> fst (snd st) + (length ids - i)
                          \<and> fst (snd c) = length ids)"
proof (induction e ids i st rule: stock_loop.induct)
  case (1 e ids i st)
  show ?case
  proof (cases "i < length ids")
    case True
    let ?st = "stock_step e ids i st"
    from 1 [OF True] obtain cs where
      p: "progressCalls (fst (stock_loop e ids (i + 1) ?st)) = progressCalls (fst ?st) @ cs"
      and s: "sorted_wrt (<) (map fst cs)"
      and b: "\<forall>c\<in>set cs. fst (snd ?st) < fst c
                \<and> fst c \<le> fst (snd ?st) + (length ids - (i + 1))
                \<and> fst (snd c) = length ids"
      by blast
    show ?thesis
    proof (cases "respond e i (AdjustStockRequest (ids ! i)) = Succeeded")
      case True
      let ?c = "(fst (snd st) + 1, length ids, Adjusted (fst (snd st) + 1) (length ids))"
      have d: "fst (snd ?st) = fst (snd st) + 1"
        using True by (simp add: stock_step_done)
      have "progressCalls (fst (stock_loop e ids i st)) = progressCalls (fst st) @ (?c # cs)"
        using \<open>i < length ids\<close> p True
        by (simp add: stock_loop.simps [of e ids i st] stock_step_progressCalls)
      moreover have "sorted_wrt (<) (map fst (?c # cs))"
        using s b d by simp
      moreover have "\<forall>c\<in>set (?c # cs). fst (snd st) < fst c
                       \<and> fst c \<le> fst (snd st) + (length ids - i) \<and> fst (snd c) = length ids"
        using b d \<open>i < length ids\<close> by auto
      ultimately show ?thesis
        by blast
    next
      case False
      have d: "fst (snd ?st) = fst (snd st)"
        using False by (simp add: stock_step_done)
      have "progressCalls (fst (stock_loop e ids i st)) = progressCalls (fst st) @ cs"
        using \<open>i < length ids\<close> p False
        by (simp add: stock_loop.simps [of e ids i st] stock_step_progressCalls)
      moreover have "\<forall>c\<in>set cs. fst (snd st) < fst c
                       \<and> fst c \<le> fst (snd st) + (length ids - i) \<and> fst (snd c) = length ids"
        using b d by auto
      ultimately show ?thesis
        using s by blast
    qed
  next
    case False
    then have "stock_loop e ids i st = st"
      by (simp add: stock_loop.simps [of e ids i st])
    then show ?thesis
      by (intro exI [of _ "[]"]) simp
  qed
qed






subsection \<open>A whole run\<close>

lemma addErrors_fields [simp]:
  "errorCount (foldl (\<lambda>s error. progress_addError error s) m es) = errorCount m + length es"
  "errorLog (foldl (\<lambda>s error. progress_addError error s) m es) = errorLog m @ es"
  "requests (foldl (\<lambda>s error. progress_addError error s) m es) = requests m"
  "progressCalls (foldl (\<lambda>s error. progress_addError error s) m es) = progressCalls m"
  "successCount (foldl (\<lambda>s error. progress_addError error s) m es) = successCount m"
  "selectedItems (foldl (\<lambda>s error. progress_addError error s) m es) = selectedItems m"
  "alerts (foldl (\<lambda>s error. progress_addError error s) m es) = alerts m"
  by (induction es arbitrary: m; simp add: progress_addError_def)+

lemma operation_setup_fields [simp]:
  "selectedItems (operation_setup title m) = selectedItems m"
  "requests (operation_setup title m) = requests m"
  "successCount (operation_setup title m) = 0"
  "errorCount (operation_setup title m) = 0"
  "progressCalls (operation_setup title m) = []"
  by (simp_all add: operation_setup_def)

lemma finished_eq:
  "finished ids st =
     (fst st, Inr \<lparr>success = (snd (snd st) = []), completed = fst (snd st),
                   total = length ids, errors = snd (snd st)\<rparr>)"
  by (cases st) (simp add: finished_def)

lemma executeOperation_returned:
  assumes "operationFunc (operation_setup title m) = (m2, Inr r)"
  shows "job (executeOperation title operationFunc m) = Some r"
    and "requests (executeOperation title operationFunc m) = requests m2"
    and "progressCalls (executeOperation title operationFunc m) = progressCalls m2"
    and "successCount (executeOperation title operationFunc m) = successCount m2"
    and "errorCount (executeOperation title operationFunc m) = errorCount m2 + length (errors r)"
  using assms by (simp_all add: executeOperation_def operation_outcome_def Let_def showAlert_def)

lemma refreshProductList_fields [simp]:
  "job (refreshProductList m) = job m"
  "requests (refreshProductList m) = requests m"
  "progressCalls (refreshProductList m) = progressCalls m"
  "successCount (refreshProductList m) = successCount m"
  "errorCount (refreshProductList m) = errorCount m"
  by (simp_all add: refreshProductList_def clearSelection_def updateSelectionToolbar_def Let_def)


lemma batch_run:
  assumes "st = batch_loop k e (selectedItems m) 0 (operation_setup title m, 0, [])"
  shows "job (executeOperation title (batch_operation k e) m)
           = Some \<lparr>success = (snd (snd st) = []), completed = fst (snd st),
                    total = length (selectedItems m), errors = snd (snd st)\<rparr>"
    and "requests (executeOperation title (batch_operation k e) m) = requests (fst st)"
    and "progressCalls (executeOperation title (batch_operation k e) m) = progressCalls (fst st)"
    and "successCount (executeOperation title (batch_operation k e) m) = fst (snd st)"
    and "errorCount (executeOperation title (batch_operation k e) m) = length (snd (snd st))"
proof -
  let ?r = "\<lparr>success = (snd (snd st) = []), completed = fst (snd st),
              total = length (selectedItems m), errors = snd (snd st)\<rparr>"
  have op: "batch_operation k e (operation_setup title m) = (fst st, Inr ?r)"
    using assms by (simp add: batch_operation_def Let_def finished_eq)
  have z: "errorCount (fst st) = 0"
    using assms batch_loop_kept [of k e "selectedItems m" 0 "(operation_setup title m, 0, [])"]
    by simp
  have c: "successCount (fst st) = fst (snd st)"
    using assms
      batch_loop_successCount [of "(operation_setup title m, 0, [])" k e "selectedItems m" 0]
    by simp
  show "job (executeOperation title (batch_operation k e) m) = Some ?r"
    by (rule executeOperation_returned(1) [where operationFunc = "batch_operation k e", OF op])
  show "requests (executeOperation title (batch_operation k e) m) = requests (fst st)"
    by (rule executeOperation_returned(2) [where operationFunc = "batch_operation k e", OF op])
  show "progressCalls (executeOperation title (batch_operation k e) m) = progressCalls (fst st)"
    by (rule executeOperation_returned(3) [where operationFunc = "batch_operation k e", OF op])
  show "successCount (executeOperation title (batch_operation k e) m) = fst (snd st)"
    using executeOperation_returned(4) [where operationFunc = "batch_operation k e", OF op] c by simp
  show "errorCount (executeOperation title (batch_operation k e) m) = length (snd (snd st))"
    using executeOperation_returned(5) [where operationFunc = "batch_operation k e", OF op] z by simp
qed

lemma stock_run:
  assumes "st = stock_loop e (selectedItems m) 0 (operation_setup title m, 0, [])"
  shows "job (executeOperation title (stock_operation e) m)
           = Some \<lparr>success = (snd (snd st) = []), completed = fst (snd st),
                    total = length (selectedItems m), errors = snd (snd st)\<rparr>"
    and "requests (executeOperation title (stock_operation e) m) = requests (fst st)"
    and "progressCalls (executeOperation title (stock_operation e) m) = progressCalls (fst st)"
    and "successCount (executeOperation title (stock_operation e) m) = fst (snd st)"
    and "errorCount (executeOperation title (stock_operation e) m) = length (snd (snd st))"
proof -
  let ?r = "\<lparr>success = (snd (snd st) = []), completed = fst (snd st),
              total = length (selectedItems m), errors = snd (snd st)\<rparr>"
  have op: "stock_operation e (operation_setup title m) = (fst st, Inr ?r)"
    using assms by (simp add: stock_operation_def Let_def finished_eq)
  have z: "errorCount (fst st) = 0"
    using assms stock_loop_kept [of e "selectedItems m" 0 "(operation_setup title m, 0, [])"]
    by simp
  have c: "successCount (fst st) = fst (snd st)"
    using assms
      stock_loop_successCount [of "(operation_setup title m, 0, [])" e "selectedItems m" 0]
    by simp
  show "job (executeOperation title (stock_operation e) m) = Some ?r"
    by (rule executeOperation_returned(1) [where operationFunc = "stock_operation e", OF op])
  show "requests (executeOperation title (stock_operation e) m) = requests (fst st)"
    by (rule executeOperation_returned(2) [where operationFunc = "stock_operation e", OF op])
  show "progressCalls (executeOperation title (stock_operation e) m) = progressCalls (fst st)"
    by (rule executeOperation_returned(3) [where operationFunc = "stock_operation e", OF op])
  show "successCount (executeOperation title (stock_operation e) m) = fst (snd st)"
    using executeOperation_returned(4) [where operationFunc = "stock_operation e", OF op] c by simp
  show "errorCount (executeOperation title (stock_operation e) m) = length (snd (snd st))"
    using executeOperation_returned(5) [where operationFunc = "stock_operation e", OF op] z by simp
qed

text \<open>What a batched run sends: the selection cut into consecutive batches.\<close>

lemma batch_run_requests:
  "\<exists>bs. requests (executeOperation title (batch_operation k e) m)
            = requests m @ map (batch_request k) bs
        \<and> concat bs = selectedItems m
        \<and> length bs = (length (selectedItems m) + batchSize k - 1) div batchSize k
        \<and> (\<forall>b\<in>set bs. 0 < length b \<and> length b \<le> batchSize k)
        \<and> (\<forall>j. Suc j < length bs \<longrightarrow> length (bs ! j) = batchSize k)"
  using batch_loop_requests [of k e "selectedItems m" 0 "(operation_setup title m, 0, [])"]
  by (simp add: batch_run(2) [OF refl])

lemma stock_run_requests:
  "requests (executeOperation title (stock_operation e) m)
     = requests m @ map AdjustStockRequest (selectedItems m)"
  using stock_loop_requests [of e "selectedItems m" 0 "(operation_setup title m, 0, [])"]
  by (simp add: stock_run(2) [OF refl])

lemma batch_run_progressCalls:
  "sorted_wrt (<) (map fst (progressCalls (executeOperation title (batch_operation k e) m)))
   \<and> (\<forall>c\<in>set (progressCalls (executeOperation title (batch_operation k e) m)).
         fst c \<le> length (selectedItems m) \<and> fst (snd c) = length (selectedItems m))"
  using batch_loop_progressCalls [of k e "selectedItems m" 0 "(operation_setup title m, 0, [])"]
  by (auto simp: batch_run(3) [OF refl])

lemma stock_run_progressCalls:
  "sorted_wrt (<) (map fst (progressCalls (executeOperation title (stock_operation e) m)))
   \<and> (\<forall>c\<in>set (progressCalls (executeOperation title (stock_operation e) m)).
         fst c \<le> length (selectedItems m) \<and> fst (snd c) = length (selectedItems m))"
  using stock_loop_progressCalls [of e "selectedItems m" 0 "(operation_setup title m, 0, [])"]
  by (auto simp: stock_run(3) [OF refl])



text \<open>The entry points, past their guards.\<close>

lemma executeBulkUpdate_run:
  "getAll formData ''update_fields'' \<noteq> [] \<Longrightarrow>
   executeBulkUpdate e formData m =
     refreshProductList
       (executeOperation ''Bulk Update Products''
          (batch_operation (FieldUpdate (getAll formData ''update_fields'')) e)
          (m\<lparr>ui := ui m @ [ModalHidden BulkUpdateModal]\<rparr>))"
  by (simp add: executeBulkUpdate_def parseUpdateFormData_def)

lemma bulkActivateDeactivate_run:
  "confirmAnswer e \<Longrightarrow>
   bulkActivateDeactivate e activate m =
     refreshProductList
       (executeOperation
          (if activate then ''Bulk Activate Products'' else ''Bulk Deactivate Products'')
          (batch_operation (ActivateDeactivate activate) e) m)"
  by (simp add: bulkActivateDeactivate_def)

lemma executeBulkStockAdjustment_run:
  "executeBulkStockAdjustment e formData m =
     refreshProductList
       (executeOperation ''Bulk Stock Adjustment'' (stock_operation e)
          (m\<lparr>ui := ui m @ [ModalHidden BulkStockModal]\<rparr>))"
  by (simp add: executeBulkStockAdjustment_def)

subsection \<open>Batches and progress\<close>

lemma batch_request_FieldUpdate: "batch_request (FieldUpdate fs) = (\<lambda>b. BulkUpdateRequest b fs)"
  by (rule ext) simp

lemma batch_request_ActivateDeactivate:
  "batch_request (ActivateDeactivate activate) = (\<lambda>b. BulkActivateRequest b activate)"
  by (rule ext) simp

text \<open>
  Claim C4, as the script has it. Past its guard, each of the three batched operations
  sends the selected ids in consecutive batches: a field update in batches of 10 and an
  activation or deactivation in batches of 20 (every batch but the last is full, none is
  empty, and together they are the selection in order), so \<open>(|S| + B - 1) div B\<close>
  requests, which is the ceiling of \<open>|S| / B\<close>; a stock adjustment sends one request per
  selected id, in order. The export is not cut into batches: it posts all selected ids in
  one form.
\<close>

theorem chunk_partition:
  "(getAll formData ''update_fields'' \<noteq> [] \<longrightarrow>
      (\<exists>bs. requests (executeBulkUpdate e formData m)
                = requests m
                  @ map (\<lambda>b. BulkUpdateRequest b (getAll formData ''update_fields'')) bs
            \<and> concat bs = selectedItems m
            \<and> length bs = (length (selectedItems m) + 10 - 1) div 10
            \<and> (\<forall>b\<in>set bs. 0 < length b \<and> length b \<le> 10)
            \<and> (\<forall>j. Suc j < length bs \<longrightarrow> length (bs ! j) = 10)))
   \<and> (confirmAnswer e \<longrightarrow>
      (\<exists>bs. requests (bulkActivateDeactivate e activate m)
                = requests m @ map (\<lambda>b. BulkActivateRequest b activate) bs
            \<and> concat bs = selectedItems m
            \<and> length bs = (length (selectedItems m) + 20 - 1) div 20
            \<and> (\<forall>b\<in>set bs. 0 < length b \<and> length b \<le> 20)
            \<and> (\<forall>j. Suc j < length bs \<longrightarrow> length (bs ! j) = 20)))
   \<and> requests (executeBulkStockAdjustment e formData m)
        = requests m @ map AdjustStockRequest (selectedItems m)
   \<and> length (map AdjustStockRequest (selectedItems m))
        = (length (selectedItems m) + 1 - 1) div 1
   \<and> requests (exportSelected m) = requests m @ [ExportRequest (selectedItems m)]"
proof (intro conjI impI)
  assume f: "getAll formData ''update_fields'' \<noteq> []"
  show "\<exists>bs. requests (executeBulkUpdate e formData m)
                = requests m
                  @ map (\<lambda>b. BulkUpdateRequest b (getAll formData ''update_fields'')) bs
            \<and> concat bs = selectedItems m
            \<and> length bs = (length (selectedItems m) + 10 - 1) div 10
            \<and> (\<forall>b\<in>set bs. 0 < length b \<and> length b \<le> 10)
            \<and> (\<forall>j. Suc j < length bs \<longrightarrow> length (bs ! j) = 10)"
    using batch_run_requests
      [of "''Bulk Update Products''" "FieldUpdate (getAll formData ''update_fields'')" e
          "m\<lparr>ui := ui m @ [ModalHidden BulkUpdateModal]\<rparr>"]
    by (simp add: executeBulkUpdate_run [OF f] batch_request_FieldUpdate)
next
  assume c: "confirmAnswer e"
  show "\<exists>bs. requests (bulkActivateDeactivate e activate m)
                = requests m @ map (\<lambda>b. BulkActivateRequest b activate) bs
            \<and> concat bs = selectedItems m
            \<and> length bs = (length (selectedItems m) + 20 - 1) div 20
            \<and> (\<forall>b\<in>set bs. 0 < length b \<and> length b \<le> 20)
            \<and> (\<forall>j. Suc j < length bs \<longrightarrow> length (bs ! j) = 20)"
    using batch_run_requests
      [of "if activate then ''Bulk Activate Products'' else ''Bulk Deactivate Products''"
          "ActivateDeactivate activate" e m]
    by (simp add: bulkActivateDeactivate_run [OF c] batch_request_ActivateDeactivate)
next
  show "requests (executeBulkStockAdjustment e formData m)
          = requests m @ map AdjustStockRequest (selectedItems m)"
    by (simp add: executeBulkStockAdjustment_run stock_run_requests)
next
  show "length (map AdjustStockRequest (selectedItems m))
          = (length (selectedItems m) + 1 - 1) div 1"
    by simp
next
  show "requests (exportSelected m) = requests m @ [ExportRequest (selectedItems m)]"
    by (simp add: exportSelected_def Let_def showAlert_def)
qed

lemma selected_25:
  "selectedItems (selected 25) = [1..<26]" "requests (selected 25) = []"
  by code_simp+

theorem chunk_partition_witness:
  "getAll cost_price_checked ''update_fields'' \<noteq> []
   \<and> confirmAnswer all_succeed
   \<and> length (requests (executeBulkUpdate all_succeed cost_price_checked (selected 25))) = 3
   \<and> length (requests (bulkActivateDeactivate all_succeed True (selected 25))) = 2
   \<and> length (requests (executeBulkStockAdjustment all_succeed cost_price_checked (selected 25)))
       = 25"
proof -
  have f: "getAll cost_price_checked ''update_fields'' \<noteq> []"
    by code_simp
  have c: "confirmAnswer all_succeed"
    by (simp add: all_succeed_def)
  from chunk_partition [of cost_price_checked all_succeed "selected 25" True] f c
  show ?thesis
    by (auto simp: selected_25)
qed

text \<open>
  Claim C4 as stated fails for the export, which is a bulk operation of the toolbar like
  the others: for 25 selected products it sends one request with all 25 ids, which is the
  number of batches for none of the batch sizes 10, 20 and 1.
\<close>

theorem export_is_one_request:
  "requests (handleBulkAction all_succeed ''export'' (selected 25)) = [ExportRequest [1..<26]]
   \<and> length (requests (handleBulkAction all_succeed ''export'' (selected 25)))
       \<noteq> (length (selectedItems (selected 25)) + 10 - 1) div 10
   \<and> length (requests (handleBulkAction all_succeed ''export'' (selected 25)))
       \<noteq> (length (selectedItems (selected 25)) + 20 - 1) div 20
   \<and> length (requests (handleBulkAction all_succeed ''export'' (selected 25)))
       \<noteq> (length (selectedItems (selected 25)) + 1 - 1) div 1"
  by code_simp

text \<open>
  Claim C5. In every run of a bulk operation the completed counts passed to
  \<^verbatim>\<open>progress.update\<close> increase from call to call (so they never decrease), none exceeds
  the number of selected items, and each call reports that number as the total.
\<close>

theorem progress_monotone:
  "(getAll formData ''update_fields'' \<noteq> [] \<longrightarrow>
      sorted (map fst (progressCalls (executeBulkUpdate e formData m)))
      \<and> sorted_wrt (<) (map fst (progressCalls (executeBulkUpdate e formData m)))
      \<and> (\<forall>c\<in>set (progressCalls (executeBulkUpdate e formData m)).
            fst c \<le> length (selectedItems m) \<and> fst (snd c) = length (selectedItems m)))
   \<and> (confirmAnswer e \<longrightarrow>
      sorted (map fst (progressCalls (bulkActivateDeactivate e activate m)))
      \<and> sorted_wrt (<) (map fst (progressCalls (bulkActivateDeactivate e activate m)))
      \<and> (\<forall>c\<in>set (progressCalls (bulkActivateDeactivate e activate m)).
            fst c \<le> length (selectedItems m) \<and> fst (snd c) = length (selectedItems m)))
   \<and> sorted (map fst (progressCalls (executeBulkStockAdjustment e formData m)))
   \<and> sorted_wrt (<) (map fst (progressCalls (executeBulkStockAdjustment e formData m)))
   \<and> (\<forall>c\<in>set (progressCalls (executeBulkStockAdjustment e formData m)).
         fst c \<le> length (selectedItems m) \<and> fst (snd c) = length (selectedItems m))"
proof -
  have u: "getAll formData ''update_fields'' \<noteq> [] \<longrightarrow>
      sorted_wrt (<) (map fst (progressCalls (executeBulkUpdate e formData m)))
      \<and> (\<forall>c\<in>set (progressCalls (executeBulkUpdate e formData m)).
            fst c \<le> length (selectedItems m) \<and> fst (snd c) = length (selectedItems m))"
    using batch_run_progressCalls
      [of "''Bulk Update Products''" "FieldUpdate (getAll formData ''update_fields'')" e
          "m\<lparr>ui := ui m @ [ModalHidden BulkUpdateModal]\<rparr>"]
    by (simp add: executeBulkUpdate_run)
  have a: "confirmAnswer e \<longrightarrow>
      sorted_wrt (<) (map fst (progressCalls (bulkActivateDeactivate e activate m)))
      \<and> (\<forall>c\<in>set (progressCalls (bulkActivateDeactivate e activate m)).
            fst c \<le> length (selectedItems m) \<and> fst (snd c) = length (selectedItems m))"
    using batch_run_progressCalls
      [of "if activate then ''Bulk Activate Products'' else ''Bulk Deactivate Products''"
          "ActivateDeactivate activate" e m]
    by (simp add: bulkActivateDeactivate_run)
  have s: "sorted_wrt (<) (map fst (progressCalls (executeBulkStockAdjustment e formData m)))
      \<and> (\<forall>c\<in>set (progressCalls (executeBulkStockAdjustment e formData m)).
            fst c \<le> length (selectedItems m) \<and> fst (snd c) = length (selectedItems m))"
    using stock_run_progressCalls
      [of "''Bulk Stock Adjustment''" e "m\<lparr>ui := ui m @ [ModalHidden BulkStockModal]\<rparr>"]
    by (simp add: executeBulkStockAdjustment_run)
  from u a s show ?thesis
    by (simp add: strict_sorted_imp_sorted)
qed

theorem progress_monotone_witness:
  "getAll cost_price_checked ''update_fields'' \<noteq> []
   \<and> confirmAnswer second_chunk_rejected
   \<and> sorted (map fst (progressCalls
        (executeBulkUpdate second_chunk_rejected cost_price_checked (selected 25))))
   \<and> sorted (map fst (progressCalls
        (bulkActivateDeactivate second_chunk_rejected True (selected 25))))
   \<and> sorted (map fst (progressCalls
        (executeBulkStockAdjustment second_chunk_rejected cost_price_checked (selected 25))))
   \<and> map fst (progressCalls
        (executeBulkUpdate second_chunk_rejected cost_price_checked (selected 25))) = [10, 15]"
proof -
  have f: "getAll cost_price_checked ''update_fields'' \<noteq> []"
    by code_simp
  have c: "confirmAnswer second_chunk_rejected"
    by (simp add: second_chunk_rejected_def)
  have v: "map fst (progressCalls
        (executeBulkUpdate second_chunk_rejected cost_price_checked (selected 25))) = [10, 15]"
    by code_simp
  from progress_monotone [of cost_price_checked second_chunk_rejected "selected 25" True] f c v
  show ?thesis
    by simp
qed

subsection \<open>The final tally\<close>




subsection \<open>Twenty-five items, the second batch rejected\<close>

lemma batch_step_errors_rejected:
  "respond e i (batch_request k (slice ids i (i + batchSize k))) = Rejected msg \<Longrightarrow>
   snd (snd (batch_step k e ids i st)) = snd (snd st) @ [BatchError msg]"
  by (cases st) (simp add: batch_step_def Let_def)

lemma three_batches:
  "length ids = 25 \<Longrightarrow>
   batch_loop (FieldUpdate fs) e ids 0 st =
     batch_step (FieldUpdate fs) e ids 20
       (batch_step (FieldUpdate fs) e ids 10 (batch_step (FieldUpdate fs) e ids 0 st))"
  by (simp add: batch_loop.simps [of _ _ _ 0] batch_loop.simps [of _ _ _ 10]
        batch_loop.simps [of _ _ _ 20] batch_loop.simps [of _ _ _ 30])

text \<open>
  Claim C3, as the script has it. A field update of the selection 1, ..., 25 sends three
  requests, for 1..10, 11..20 and 21..25. When the first and the third succeed and the
  second is rejected, the job ends with 15 completed of 25, the success counter shows 15,
  and \<open>errors\<close> holds one entry, the batch error of the second request; the third batch
  is sent and counted.
\<close>

theorem second_chunk_fails:
  fixes m :: "nat manager"
  assumes "selectedItems m = [1..<26]"
    and "getAll formData ''update_fields'' = fs" and "fs \<noteq> []"
    and "respond e 0 (BulkUpdateRequest [1..<11] fs) = Succeeded"
    and "respond e 10 (BulkUpdateRequest [11..<21] fs) = Rejected msg"
    and "respond e 20 (BulkUpdateRequest [21..<26] fs) = Succeeded"
  shows "requests (executeBulkUpdate e formData m)
           = requests m @ [BulkUpdateRequest [1..<11] fs, BulkUpdateRequest [11..<21] fs,
                           BulkUpdateRequest [21..<26] fs]
         \<and> job (executeBulkUpdate e formData m)
             = Some \<lparr>success = False, completed = 15, total = 25, errors = [BatchError msg]\<rparr>
         \<and> successCount (executeBulkUpdate e formData m) = 15
         \<and> errorCount (executeBulkUpdate e formData m) = 1"
proof -
  define ids :: "nat list" where "ids = [1..<26]"
  have len: "length ids = 25"
    by (simp add: ids_def)
  have sl: "slice ids 0 10 = [1..<11]" "slice ids 10 20 = [11..<21]"
    "slice ids 20 30 = [21..<26]"
    by (simp_all add: ids_def slice_def)
  let ?m = "m\<lparr>ui := ui m @ [ModalHidden BulkUpdateModal]\<rparr>"
  let ?s0 = "(operation_setup ''Bulk Update Products'' ?m, 0::nat, [] :: nat message list)"
  let ?s1 = "batch_step (FieldUpdate fs) e ids 0 ?s0"
  let ?s2 = "batch_step (FieldUpdate fs) e ids 10 ?s1"
  let ?s3 = "batch_step (FieldUpdate fs) e ids 20 ?s2"
  have sel: "selectedItems ?m = ids"
    using assms(1) by (simp add: ids_def)
  have run: "executeBulkUpdate e formData m =
      refreshProductList (executeOperation ''Bulk Update Products''
        (batch_operation (FieldUpdate fs) e) ?m)"
    using assms(2,3) executeBulkUpdate_run [of formData e m] by simp
  have st: "?s3 = batch_loop (FieldUpdate fs) e (selectedItems ?m) 0 ?s0"
    by (simp only: sel three_batches [OF len])
  have r1: "respond e 0 (batch_request (FieldUpdate fs) (slice ids 0 (0 + batchSize (FieldUpdate fs))))
              = Succeeded"
    using assms(4) by (simp add: sl)
  have r2: "respond e 10 (batch_request (FieldUpdate fs) (slice ids 10 (10 + batchSize (FieldUpdate fs))))
              = Rejected msg"
    using assms(5) by (simp add: sl)
  have r3: "respond e 20 (batch_request (FieldUpdate fs) (slice ids 20 (20 + batchSize (FieldUpdate fs))))
              = Succeeded"
    using assms(6) by (simp add: sl)
  have d1: "fst (snd ?s1) = 10" and e1: "snd (snd ?s1) = []"
    using r1 by (simp_all add: batch_step_done batch_step_errors_succeeded sl)
  have d2: "fst (snd ?s2) = 10" and e2: "snd (snd ?s2) = [BatchError msg]"
    using r2 d1 e1 by (simp_all add: batch_step_done batch_step_errors_rejected)
  have d3: "fst (snd ?s3) = 15" and e3: "snd (snd ?s3) = [BatchError msg]"
    using r3 d2 e2 by (simp_all add: batch_step_done batch_step_errors_succeeded sl)
  have q: "requests (fst ?s3)
              = requests m @ [BulkUpdateRequest [1..<11] fs, BulkUpdateRequest [11..<21] fs,
                              BulkUpdateRequest [21..<26] fs]"
    by (simp add: batch_step_requests sl)
  from batch_run [OF st] d3 e3 q sel len show ?thesis
    by (simp add: run)
qed

theorem second_chunk_fails_witness:
  "selectedItems (selected 25) = [1..<26]
   \<and> getAll cost_price_checked ''update_fields'' = [''cost_price'']
   \<and> respond second_chunk_rejected 10 (BulkUpdateRequest [11..<21] [''cost_price''])
       = Rejected ''Failed to fetch''
   \<and> job (executeBulkUpdate second_chunk_rejected cost_price_checked (selected 25))
       = Some \<lparr>success = False, completed = 15, total = 25,
                errors = [BatchError ''Failed to fetch'']\<rparr>
   \<and> length (requests (executeBulkUpdate second_chunk_rejected cost_price_checked (selected 25)))
       = 3"
proof -
  have f: "getAll cost_price_checked ''update_fields'' = [''cost_price'']"
    by code_simp
  have n: "[''cost_price''] \<noteq> []"
    by simp
  have r: "respond second_chunk_rejected 0 (BulkUpdateRequest [1..<11] [''cost_price''])
             = Succeeded"
    "respond second_chunk_rejected 10 (BulkUpdateRequest [11..<21] [''cost_price''])
       = Rejected ''Failed to fetch''"
    "respond second_chunk_rejected 20 (BulkUpdateRequest [21..<26] [''cost_price''])
       = Succeeded"
    by (simp_all add: second_chunk_rejected_def)
  from second_chunk_fails [OF selected_25(1) f n r] f r(2) show ?thesis
    by (simp add: selected_25)
qed

text \<open>
  Claim C3 as stated fails: the run above does not end with 25 completed, and it does not
  record 10 errors.
\<close>

theorem second_chunk_fails_counterexample:
  "completed (the (job (executeBulkUpdate second_chunk_rejected cost_price_checked (selected 25))))
     \<noteq> 25
   \<and> length (errors (the (job
        (executeBulkUpdate second_chunk_rejected cost_price_checked (selected 25))))) \<noteq> 10
   \<and> job (executeBulkUpdate second_chunk_rejected cost_price_checked (selected 25)) \<noteq> None"
  by code_simp

subsection \<open>Cancel and failures without a message\<close>

text \<open>
  Claim C1, run on the script. In a field update of 25 items whose requests all succeed,
  the user clicks Cancel while the first request is awaited. \<open>cancelCurrentOperation\<close>
  shows "Operation cancelled", but the loop does not read the flag it clears: the second
  and third batch are still sent, the job ends with 25 completed, and the final text is
  that of a successful run.
\<close>

theorem cancel_is_ignored:
  "cancelClick cancel_during_first 0
   \<and> requests (executeBulkUpdate cancel_during_first cost_price_checked (selected 25))
       = [BulkUpdateRequest [1..<11] [''cost_price''], BulkUpdateRequest [11..<21] [''cost_price''],
          BulkUpdateRequest [21..<26] [''cost_price'']]
   \<and> job (executeBulkUpdate cancel_during_first cost_price_checked (selected 25))
       = Some \<lparr>success = True, completed = 25, total = 25, errors = []\<rparr>
   \<and> alerts (executeBulkUpdate cancel_during_first cost_price_checked (selected 25))
       = [(OperationCancelled, warning_alert), (CompletedSuccessfully 25, success_alert)]
   \<and> progressText (executeBulkUpdate cancel_during_first cost_price_checked (selected 25))
       = CompletedSuccessfully 25"
  by code_simp

text \<open>
  Claim C6, run on the script. In a field update of 25 items the second request is
  answered with \<^verbatim>\<open>{"success": false, "errors": []}\<close>. The empty array is truthy, so the
  fallback \<^verbatim>\<open>['Unknown error in batch']\<close> is not taken and nothing is pushed: all three
  batches are sent, but the job ends with 15 completed of 25, no error, \<open>success\<close> true
  and the alert of a successful run.
\<close>

theorem failure_without_message:
  "respond second_chunk_fails_without_errors 10
       (BulkUpdateRequest [11..<21] [''cost_price'']) = Failed (Array []) ''undefined''
   \<and> length (requests
        (executeBulkUpdate second_chunk_fails_without_errors cost_price_checked (selected 25))) = 3
   \<and> job (executeBulkUpdate second_chunk_fails_without_errors cost_price_checked (selected 25))
       = Some \<lparr>success = True, completed = 15, total = 25, errors = []\<rparr>
   \<and> errorLog (executeBulkUpdate second_chunk_fails_without_errors cost_price_checked (selected 25))
       = []
   \<and> alerts (executeBulkUpdate second_chunk_fails_without_errors cost_price_checked (selected 25))
       = [(CompletedSuccessfully 15, success_alert)]"
  by code_simp

end
